theory Spec2Isabelle
  imports Main "HOL-Library.Word"
begin

section \<open>The wrapper: configlang.py\<close>

subsection \<open>Error codes\<close>

text \<open>The module-level constants \<^verbatim>\<open>ERR_CFG_*\<close> of configlang.py, as Python ints.\<close>

definition ERR_CFG_OK :: int where "ERR_CFG_OK = 0"
definition ERR_CFG_NULL_POINTER :: int where "ERR_CFG_NULL_POINTER = - 1"
definition ERR_CFG_FILE_ERROR :: int where "ERR_CFG_FILE_ERROR = - 2"
definition ERR_CFG_PARSE_ERROR :: int where "ERR_CFG_PARSE_ERROR = - 3"
definition ERR_CFG_VARIABLE_NOT_FOUND :: int where "ERR_CFG_VARIABLE_NOT_FOUND = - 4"
definition ERR_CFG_CONST_VIOLATION :: int where "ERR_CFG_CONST_VIOLATION = - 5"
definition ERR_CFG_OUT_OF_MEMORY :: int where "ERR_CFG_OUT_OF_MEMORY = - 6"
definition ERR_CFG_TYPE_MISMATCH :: int where "ERR_CFG_TYPE_MISMATCH = - 7"
definition ERR_CFG_UNKNOWN_ERROR :: int where "ERR_CFG_UNKNOWN_ERROR = - 8"

lemmas ERR_CFG_defs =
  ERR_CFG_OK_def ERR_CFG_NULL_POINTER_def ERR_CFG_FILE_ERROR_def ERR_CFG_PARSE_ERROR_def
  ERR_CFG_VARIABLE_NOT_FOUND_def ERR_CFG_CONST_VIOLATION_def ERR_CFG_OUT_OF_MEMORY_def
  ERR_CFG_TYPE_MISMATCH_def ERR_CFG_UNKNOWN_ERROR_def

text \<open>
  The status names of the engine interface with the integers the specification fixes for
  them (section 6), kept apart from the wrapper's constants so that the two can be compared.
\<close>

datatype status =
  OK | NULL_POINTER | FILE_ERROR | PARSE_ERROR | VARIABLE_NOT_FOUND | CONST_VIOLATION
  | OUT_OF_MEMORY | TYPE_MISMATCH | UNKNOWN_ERROR

fun status_code :: "status \<Rightarrow> int" where
  "status_code OK = 0"
| "status_code NULL_POINTER = - 1"
| "status_code FILE_ERROR = - 2"
| "status_code PARSE_ERROR = - 3"
| "status_code VARIABLE_NOT_FOUND = - 4"
| "status_code CONST_VIOLATION = - 5"
| "status_code OUT_OF_MEMORY = - 6"
| "status_code TYPE_MISMATCH = - 7"
| "status_code UNKNOWN_ERROR = - 8"

text \<open>The wrapper's constant of the same name.\<close>

fun wrapper_constant :: "status \<Rightarrow> int" where
  "wrapper_constant OK = ERR_CFG_OK"
| "wrapper_constant NULL_POINTER = ERR_CFG_NULL_POINTER"
| "wrapper_constant FILE_ERROR = ERR_CFG_FILE_ERROR"
| "wrapper_constant PARSE_ERROR = ERR_CFG_PARSE_ERROR"
| "wrapper_constant VARIABLE_NOT_FOUND = ERR_CFG_VARIABLE_NOT_FOUND"
| "wrapper_constant CONST_VIOLATION = ERR_CFG_CONST_VIOLATION"
| "wrapper_constant OUT_OF_MEMORY = ERR_CFG_OUT_OF_MEMORY"
| "wrapper_constant TYPE_MISMATCH = ERR_CFG_TYPE_MISMATCH"
| "wrapper_constant UNKNOWN_ERROR = ERR_CFG_UNKNOWN_ERROR"

text \<open>
  A status crosses the boundary as a C int (\<^verbatim>\<open>restype = ctypes.c_int\<close>): its
  two's-complement bit pattern.
\<close>

type_synonym c_int = "32 word"

definition c_int_of :: "int \<Rightarrow> c_int" where
  "c_int_of i = word_of_int i"

subsection \<open>Exception classes\<close>

text \<open>
  The five classes the module declares, and the built-in classes it raises or inherits
  from. \<open>superclass\<close> is the base named in each class statement.
\<close>

datatype exc_class =
  BaseException | Exception | OSError | FileNotFoundError | TypeError | AttributeError
  | ConfigLangError | ParseError | VariableNotFoundError | ConstViolationError
  | TypeMismatchError






text \<open>A raised exception: its class and the message it was built with.\<close>

datatype pyexc = PyExc (exc_cls: exc_class) (exc_msg: string)



subsection \<open>Formatting an int\<close>

text \<open>Python's \<^verbatim>\<open>str\<close> of an int, as the f-string of \<^verbatim>\<open>_check_error\<close> uses it.\<close>

definition digit_char :: "nat \<Rightarrow> char" where
  "digit_char d = ''0123456789'' ! d"

function str_nat :: "nat \<Rightarrow> string" where
  "str_nat n = (if n < 10 then [digit_char n] else str_nat (n div 10) @ [digit_char (n mod 10)])"
  by pat_completeness auto
termination
  by (relation "measure id") auto

declare str_nat.simps [simp del]

definition str_int :: "int \<Rightarrow> string" where
  "str_int i = (if i < 0 then CHR ''-'' # str_nat (nat (- i)) else str_nat (nat i))"

subsection \<open>The engine library as the wrapper sees it\<close>

text \<open>
  The shared library is loaded at run time; the wrapper knows it only through the
  signatures \<^verbatim>\<open>_setup_functions\<close> declares. The library is a parameter here: a record of
  the functions the wrapper calls, over a state \<open>'w\<close> that stands for everything a call
  can read or change behind the handle \<^verbatim>\<open>self._cfg\<close> (the instance and the files it
  reads and writes). An out-parameter is returned next to the status. Strings are the
  byte strings that cross the boundary; \<^verbatim>\<open>encode\<close> and \<^verbatim>\<open>decode\<close> are the identity on them.
\<close>

record 'w clib =
  cfg_load_file :: "'w \<Rightarrow> string \<Rightarrow> int \<times> 'w"
  cfg_load_string :: "'w \<Rightarrow> string \<Rightarrow> int \<times> 'w"
  cfg_get_int :: "'w \<Rightarrow> string \<Rightarrow> int \<times> c_int \<times> 'w"
  cfg_get_string :: "'w \<Rightarrow> string \<Rightarrow> int \<times> string \<times> 'w"
  cfg_set_int :: "'w \<Rightarrow> string \<Rightarrow> c_int \<Rightarrow> int \<times> 'w"
  cfg_save_file :: "'w \<Rightarrow> string \<Rightarrow> int \<times> 'w"
  cfg_get_error :: "'w \<Rightarrow> string"

subsection \<open>Methods of ConfigLang\<close>

definition get_error :: "'w clib \<Rightarrow> 'w \<Rightarrow> string" where
  "get_error L w = cfg_get_error L w"

definition check_error :: "'w clib \<Rightarrow> 'w \<Rightarrow> int \<Rightarrow> pyexc + unit" where
  "check_error L w error_code =
     (if error_code = ERR_CFG_OK then Inr ()
      else
        let error_msg = get_error L w in
        if error_code = ERR_CFG_PARSE_ERROR then Inl (PyExc ParseError error_msg)
        else if error_code = ERR_CFG_VARIABLE_NOT_FOUND then
          Inl (PyExc VariableNotFoundError error_msg)
        else if error_code = ERR_CFG_CONST_VIOLATION then
          Inl (PyExc ConstViolationError error_msg)
        else if error_code = ERR_CFG_TYPE_MISMATCH then
          Inl (PyExc TypeMismatchError error_msg)
        else
          Inl (PyExc ConfigLangError (''Error '' @ str_int error_code @ '': '' @ error_msg)))"

text \<open>Each method returns what the call returned or raised, and the state it left.\<close>

definition load_file :: "'w clib \<Rightarrow> 'w \<Rightarrow> string \<Rightarrow> (pyexc + unit) \<times> 'w" where
  "load_file L w path =
     (let (result, w') = cfg_load_file L w path in (check_error L w' result, w'))"

definition load_string :: "'w clib \<Rightarrow> 'w \<Rightarrow> string \<Rightarrow> (pyexc + unit) \<times> 'w" where
  "load_string L w code =
     (let (result, w') = cfg_load_string L w code in (check_error L w' result, w'))"

definition get_int :: "'w clib \<Rightarrow> 'w \<Rightarrow> string \<Rightarrow> (pyexc + int) \<times> 'w" where
  "get_int L w name =
     (let (result, v, w') = cfg_get_int L w name in
      (case check_error L w' result of
         Inl e \<Rightarrow> Inl e
       | Inr _ \<Rightarrow> Inr (sint v), w'))"

definition get_string :: "'w clib \<Rightarrow> 'w \<Rightarrow> string \<Rightarrow> (pyexc + string) \<times> 'w" where
  "get_string L w name =
     (let (result, v, w') = cfg_get_string L w name in
      (case check_error L w' result of
         Inl e \<Rightarrow> Inl e
       | Inr _ \<Rightarrow> Inr v, w'))"

text \<open>
  \<^verbatim>\<open>set_int\<close> hands a Python int to a parameter declared \<^verbatim>\<open>ctypes.c_int\<close>: ctypes keeps
  the low 32 bits and raises nothing.
\<close>

definition set_int :: "'w clib \<Rightarrow> 'w \<Rightarrow> string \<Rightarrow> int \<Rightarrow> (pyexc + unit) \<times> 'w" where
  "set_int L w name v =
     (let (result, w') = cfg_set_int L w name (c_int_of v) in (check_error L w' result, w'))"

definition save_file :: "'w clib \<Rightarrow> 'w \<Rightarrow> string \<Rightarrow> (pyexc + unit) \<times> 'w" where
  "save_file L w path =
     (let (result, w') = cfg_save_file L w path in (check_error L w' result, w'))"

text \<open>
  Python values as \<^verbatim>\<open>get\<close> returns them and \<^verbatim>\<open>__setitem__\<close> receives them. \<^verbatim>\<open>bool\<close> is
  a subclass of \<^verbatim>\<open>int\<close>; \<open>Other_obj\<close> stands for a value of any other class.
\<close>

datatype pyobj = Int_obj int | Bool_obj bool | Str_obj string | None_obj | Other_obj nat

fun isinstance_int :: "pyobj \<Rightarrow> bool" where
  "isinstance_int (Int_obj _) = True"
| "isinstance_int (Bool_obj _) = True"
| "isinstance_int _ = False"

fun int_of_obj :: "pyobj \<Rightarrow> int" where
  "int_of_obj (Int_obj i) = i"
| "int_of_obj (Bool_obj b) = (if b then 1 else 0)"
| "int_of_obj _ = 0"



definition setitem :: "'w clib \<Rightarrow> 'w \<Rightarrow> string \<Rightarrow> pyobj \<Rightarrow> (pyexc + unit) \<times> 'w" where
  "setitem L w name v =
     (if \<not> isinstance_int v then
        (Inl (PyExc TypeError ''Only integer values are supported via setitem''), w)
      else set_int L w name (int_of_obj v))"

subsection \<open>The translation of a status, as a table\<close>



subsection \<open>Construction and release\<close>

text \<open>
  The life of one instance: its attribute \<^verbatim>\<open>_cfg\<close> (absent until \<^verbatim>\<open>__init__\<close> assigns it,
  then \<^verbatim>\<open>None\<close> or the handle \<^verbatim>\<open>cfg_create\<close> returned, a \<^verbatim>\<open>c_void_p\<close> read as a Python
  int), and the handles \<^verbatim>\<open>cfg_destroy\<close> was called with, in the order of the calls.
  \<^verbatim>\<open>__init__\<close> takes the path of the library, whether it exists, and what \<^verbatim>\<open>cfg_create\<close>
  returns (\<open>None\<close> for a NULL pointer).
\<close>

type_synonym handle = nat

datatype attr = Absent | Present "handle option"

record lifecycle =
  cfg :: attr
  destroyed :: "handle list"

definition py_init :: "string \<Rightarrow> bool \<Rightarrow> handle option \<Rightarrow> (pyexc + unit) \<times> lifecycle" where
  "py_init lib_path path_exists created =
     (if \<not> path_exists then
        (Inl (PyExc FileNotFoundError (''ConfigLang library not found: '' @ lib_path)),
         \<lparr>cfg = Absent, destroyed = []\<rparr>)
      else
        let self = \<lparr>cfg = Present created, destroyed = []\<rparr> in
        (case created of
           Some h \<Rightarrow>
             if h \<noteq> 0 then (Inr (), self)
             else (Inl (PyExc ConfigLangError ''Failed to create ConfigLang instance''), self)
         | None \<Rightarrow> (Inl (PyExc ConfigLangError ''Failed to create ConfigLang instance''), self)))"

definition py_del :: "lifecycle \<Rightarrow> lifecycle" where
  "py_del self =
     (case cfg self of
        Present (Some h) \<Rightarrow>
          if h \<noteq> 0 then self\<lparr>destroyed := destroyed self @ [h]\<rparr> else self
      | _ \<Rightarrow> self)"

definition py_exit :: "lifecycle \<Rightarrow> (pyexc + bool) \<times> lifecycle" where
  "py_exit self =
     (case cfg self of
        Absent \<Rightarrow>
          (Inl (PyExc AttributeError
             (CHR 0x27 # ''ConfigLang'' @ CHR 0x27 # '' object has no attribute ''
                @ CHR 0x27 # ''_cfg'' @ [CHR 0x27])), self)
      | Present (Some h) \<Rightarrow>
          if h \<noteq> 0 then
            (Inr False, self\<lparr>destroyed := destroyed self @ [h], cfg := Present None\<rparr>)
          else (Inr False, self)
      | Present None \<Rightarrow> (Inr False, self))"

datatype call = Exit | Del

fun step :: "call \<Rightarrow> lifecycle \<Rightarrow> lifecycle" where
  "step Exit self = snd (py_exit self)"
| "step Del self = py_del self"

fun run :: "call list \<Rightarrow> lifecycle \<Rightarrow> lifecycle" where
  "run [] self = self"
| "run (c # cs) self = run cs (step c self)"

section \<open>The engine, modelled from the specification\<close>

text \<open>
  Modelled from the spec: the engine is the native library the wrapper loads, and its
  source is not in the repository; only \<^verbatim>\<open>configlang.py\<close> and \<^verbatim>\<open>setup.py\<close> are. Everything in
  this section follows spec.md, sections 3, 4 and 6. Where the specification leaves a
  choice open, the choice made is named at the definition.
\<close>

subsection \<open>Values, variables, environment\<close>

text \<open>
  Modelled from the spec: a value is an integer or a string (section 3). Integers are held
  as the C int at which \<^verbatim>\<open>cfg_get_int\<close> and \<^verbatim>\<open>cfg_set_int\<close> exchange them in the signatures
  the wrapper declares (\<^verbatim>\<open>ctypes.c_int\<close>); the specification's i64 range is wider than what
  can cross that boundary. A variable is a name, a value and the const flag. The
  environment keeps the variables in insertion order, one per name: \<open>store\<close> overwrites in
  place or appends.
\<close>

datatype val = Int_val c_int | Str_val string

record variable =
  var_name :: string
  var_val :: val
  is_const :: bool

type_synonym environment = "variable list"

fun lookup :: "environment \<Rightarrow> string \<Rightarrow> variable option" where
  "lookup [] n = None"
| "lookup (v # vs) n = (if var_name v = n then Some v else lookup vs n)"

fun store :: "environment \<Rightarrow> variable \<Rightarrow> environment" where
  "store [] x = [x]"
| "store (v # vs) x = (if var_name v = var_name x then x # vs else v # store vs x)"

text \<open>
  Modelled from the spec: the error taxonomy of section 7 and the status each kind is
  reported with. The status list has no code for a lexical error; it is reported as
  \<open>PARSE_ERROR\<close>.
\<close>

datatype failure =
  Lex_error | Parse_error | Variable_not_found | Const_violation | Type_mismatch
  | File_error | Out_of_memory | Unknown_error

fun failure_status :: "failure \<Rightarrow> status" where
  "failure_status Lex_error = PARSE_ERROR"
| "failure_status Parse_error = PARSE_ERROR"
| "failure_status Variable_not_found = VARIABLE_NOT_FOUND"
| "failure_status Const_violation = CONST_VIOLATION"
| "failure_status Type_mismatch = TYPE_MISMATCH"
| "failure_status File_error = FILE_ERROR"
| "failure_status Out_of_memory = OUT_OF_MEMORY"
| "failure_status Unknown_error = UNKNOWN_ERROR"

subsection \<open>Lexer\<close>

text \<open>
  Modelled from the spec: the tokens of section 3 (source positions serve the diagnostic
  text only and are left out) and \<open>tokenize\<close> of section 4.1. The specification does not
  give the lexical grammar; the choices here: white space is blank, tab, line feed and
  carriage return; an identifier is a letter or underscore followed by letters, digits
  and underscores; an integer literal is a run of decimal digits with an optional minus
  sign, and must fit a C int; in a string literal a backslash stands before a double
  quote or a backslash and nothing else, the two characters the serializer escapes.
  Anything else is a lexical error.
\<close>

datatype keyword = Kw_set | Kw_const | Kw_if

datatype operator = Op_assign | Op_lt | Op_gt | Op_le | Op_ge | Op_eq | Op_ne

datatype token =
  IDENT string | INT_LITERAL c_int | STRING_LITERAL string | KEYWORD keyword
  | OPERATOR operator | LBRACE | RBRACE | EOF

definition is_space :: "char \<Rightarrow> bool" where
  "is_space c = (c \<in> set [CHR '' '', CHR 0x09, CHR 0x0A, CHR 0x0D])"

definition is_digit :: "char \<Rightarrow> bool" where
  "is_digit c = (c \<in> set ''0123456789'')"

definition is_alpha :: "char \<Rightarrow> bool" where
  "is_alpha c = (c \<in> set ''abcdefghijklmnopqrstuvwxyzABCDEFGHIJKLMNOPQRSTUVWXYZ_'')"

definition is_alnum :: "char \<Rightarrow> bool" where
  "is_alnum c = (is_alpha c \<or> is_digit c)"

definition quote :: char where "quote = CHR 0x22"
definition backslash :: char where "backslash = CHR 0x5C"

definition digit_val :: "char \<Rightarrow> int" where
  "digit_val c = of_char c - 48"

definition read_digits :: "string \<Rightarrow> int" where
  "read_digits ds = foldl (\<lambda>a c. 10 * a + digit_val c) 0 ds"

definition word_token :: "string \<Rightarrow> token" where
  "word_token w =
     (if w = ''set'' then KEYWORD Kw_set
      else if w = ''const'' then KEYWORD Kw_const
      else if w = ''if'' then KEYWORD Kw_if
      else IDENT w)"

fun read_string :: "string \<Rightarrow> (string \<times> string) option" where
  "read_string [] = None"
| "read_string (c # cs) =
     (if c = quote then Some ([], cs)
      else if c = backslash then
        (case cs of
           [] \<Rightarrow> None
         | d # ds \<Rightarrow>
             if d = quote \<or> d = backslash then
               (case read_string ds of None \<Rightarrow> None | Some (s, rest) \<Rightarrow> Some (d # s, rest))
             else None)
      else (case read_string cs of None \<Rightarrow> None | Some (s, rest) \<Rightarrow> Some (c # s, rest)))"

definition read_int :: "bool \<Rightarrow> string \<Rightarrow> failure + token \<times> string" where
  "read_int negative cs =
     (let n = read_digits (takeWhile is_digit cs); rest = dropWhile is_digit cs in
      if negative then
        (if n \<le> 2147483648 then Inr (INT_LITERAL (word_of_int (- n)), rest) else Inl Lex_error)
      else
        (if n \<le> 2147483647 then Inr (INT_LITERAL (word_of_int n), rest) else Inl Lex_error))"

fun next_token :: "string \<Rightarrow> failure + token \<times> string" where
  "next_token [] = Inr (EOF, [])"
| "next_token (c # cs) =
     (if is_alpha c then
        Inr (word_token (c # takeWhile is_alnum cs), dropWhile is_alnum cs)
      else if is_digit c then read_int False (c # cs)
      else if c = CHR ''-'' then
        (case cs of
           [] \<Rightarrow> Inl Lex_error
         | d # ds \<Rightarrow> if is_digit d then read_int True cs else Inl Lex_error)
      else if c = quote then
        (case read_string cs of
           None \<Rightarrow> Inl Lex_error
         | Some (s, rest) \<Rightarrow> Inr (STRING_LITERAL s, rest))
      else if c = CHR ''{'' then Inr (LBRACE, cs)
      else if c = CHR ''}'' then Inr (RBRACE, cs)
      else if c = CHR ''='' then
        (case cs of
           d # ds \<Rightarrow> if d = CHR ''='' then Inr (OPERATOR Op_eq, ds) else Inr (OPERATOR Op_assign, cs)
         | [] \<Rightarrow> Inr (OPERATOR Op_assign, cs))
      else if c = CHR ''<'' then
        (case cs of
           d # ds \<Rightarrow> if d = CHR ''='' then Inr (OPERATOR Op_le, ds) else Inr (OPERATOR Op_lt, cs)
         | [] \<Rightarrow> Inr (OPERATOR Op_lt, cs))
      else if c = CHR ''>'' then
        (case cs of
           d # ds \<Rightarrow> if d = CHR ''='' then Inr (OPERATOR Op_ge, ds) else Inr (OPERATOR Op_gt, cs)
         | [] \<Rightarrow> Inr (OPERATOR Op_gt, cs))
      else if c = CHR ''!'' then
        (case cs of
           d # ds \<Rightarrow> if d = CHR ''='' then Inr (OPERATOR Op_ne, ds) else Inl Lex_error
         | [] \<Rightarrow> Inl Lex_error)
      else Inl Lex_error)"

declare next_token.simps [simp del]

lemma read_string_shorter: "read_string cs = Some (s, rest) \<Longrightarrow> length rest < length cs"
  by (induction cs arbitrary: s rest rule: read_string.induct)
     (auto split: if_splits list.splits option.splits, fastforce+)

lemma next_token_shorter:
  "next_token (c # cs) = Inr (t, rest) \<Longrightarrow> length rest < length (c # cs)"
  by (auto simp: next_token.simps read_int_def Let_def less_Suc_eq_le length_dropWhile_le
      split: if_splits list.splits option.splits dest!: read_string_shorter
      intro: le_trans [OF length_dropWhile_le])

function tokenize :: "string \<Rightarrow> failure + token list" where
  "tokenize cs =
     (case dropWhile is_space cs of
        [] \<Rightarrow> Inr [EOF]
      | c # cs' \<Rightarrow>
          (case next_token (c # cs') of
             Inl e \<Rightarrow> Inl e
           | Inr (t, rest) \<Rightarrow>
               (case tokenize rest of Inl e \<Rightarrow> Inl e | Inr ts \<Rightarrow> Inr (t # ts))))"
  by pat_completeness auto
termination
proof (relation "measure length", goal_cases)
  case 1
  show ?case by simp
next
  case (2 cs c cs' x t rest)
  have a: "length rest < length (c # cs')"
    using 2(2,3) next_token_shorter by metis
  have "length (dropWhile is_space cs) \<le> length cs"
    by (rule length_dropWhile_le)
  then have b: "length (c # cs') \<le> length cs"
    by (simp only: 2(1))
  from a b show ?case by simp
qed

declare tokenize.simps [simp del]

subsection \<open>Parser\<close>

text \<open>
  Modelled from the spec: statements, expressions and comparisons of section 3 and the
  grammar of section 4.2. \<open>Assign n mutable e\<close> has \<open>mutable = True\<close> for \<^verbatim>\<open>set\<close> and \<open>False\<close>
  for \<^verbatim>\<open>const set\<close>. The grammar is read in one pass over the tokens with a stack of the
  open \<^verbatim>\<open>if\<close> blocks, each with its condition and the statements read before it; a
  recursive-descent parser keeps the same stack in its calls. Operand kinds are checked
  by the evaluator, not here.
\<close>

datatype compare_op = Lt | Gt | Le | Ge | Eq | Ne

datatype expr = Lit_int c_int | Lit_str string | Var string

datatype comparison = Comparison expr compare_op expr

datatype stmt = Assign string bool expr | Conditional comparison "stmt list"

fun expr_of_token :: "token \<Rightarrow> expr option" where
  "expr_of_token (INT_LITERAL i) = Some (Lit_int i)"
| "expr_of_token (STRING_LITERAL s) = Some (Lit_str s)"
| "expr_of_token (IDENT n) = Some (Var n)"
| "expr_of_token _ = None"

fun compare_op_of :: "operator \<Rightarrow> compare_op option" where
  "compare_op_of Op_assign = None"
| "compare_op_of Op_lt = Some Lt"
| "compare_op_of Op_gt = Some Gt"
| "compare_op_of Op_le = Some Le"
| "compare_op_of Op_ge = Some Ge"
| "compare_op_of Op_eq = Some Eq"
| "compare_op_of Op_ne = Some Ne"

definition parse_assign :: "bool \<Rightarrow> token list \<Rightarrow> failure + stmt \<times> token list" where
  "parse_assign mutable ts =
     (case ts of
        IDENT n # OPERATOR Op_assign # t # rest \<Rightarrow>
          (case expr_of_token t of
             None \<Rightarrow> Inl Parse_error
           | Some e \<Rightarrow> Inr (Assign n mutable e, rest))
      | _ \<Rightarrow> Inl Parse_error)"

definition parse_condition :: "token list \<Rightarrow> failure + comparison \<times> token list" where
  "parse_condition ts =
     (case ts of
        a # OPERATOR opr # b # LBRACE # rest \<Rightarrow>
          (case (expr_of_token a, compare_op_of opr, expr_of_token b) of
             (Some l, Some c, Some r) \<Rightarrow> Inr (Comparison l c r, rest)
           | _ \<Rightarrow> Inl Parse_error)
      | _ \<Rightarrow> Inl Parse_error)"

lemma parse_assign_shorter:
  "parse_assign mutable ts = Inr (s, rest) \<Longrightarrow> length rest < length ts"
  by (auto simp: parse_assign_def split: list.splits token.splits operator.splits option.splits)

lemma parse_condition_shorter:
  "parse_condition ts = Inr (c, rest) \<Longrightarrow> length rest < length ts"
  by (auto simp: parse_condition_def split: list.splits token.splits option.splits)

function parse_loop ::
  "(comparison \<times> stmt list) list \<Rightarrow> stmt list \<Rightarrow> token list \<Rightarrow> failure + stmt list" where
  "parse_loop stack acc ts =
     (case ts of
        [] \<Rightarrow> Inl Parse_error
      | t # ts' \<Rightarrow>
          (case t of
             EOF \<Rightarrow> if stack = [] \<and> ts' = [] then Inr acc else Inl Parse_error
           | RBRACE \<Rightarrow>
               (case stack of
                  [] \<Rightarrow> Inl Parse_error
                | (c, outer) # stack' \<Rightarrow> parse_loop stack' (outer @ [Conditional c acc]) ts')
           | KEYWORD k \<Rightarrow>
               (case k of
                  Kw_set \<Rightarrow>
                    (case parse_assign True ts' of
                       Inl e \<Rightarrow> Inl e
                     | Inr (s, rest) \<Rightarrow> parse_loop stack (acc @ [s]) rest)
                | Kw_const \<Rightarrow>
                    (case ts' of
                       [] \<Rightarrow> Inl Parse_error
                     | t' # ts'' \<Rightarrow>
                         if t' = KEYWORD Kw_set then
                           (case parse_assign False ts'' of
                              Inl e \<Rightarrow> Inl e
                            | Inr (s, rest) \<Rightarrow> parse_loop stack (acc @ [s]) rest)
                         else Inl Parse_error)
                | Kw_if \<Rightarrow>
                    (case parse_condition ts' of
                       Inl e \<Rightarrow> Inl e
                     | Inr (c, rest) \<Rightarrow> parse_loop ((c, acc) # stack) [] rest))
           | _ \<Rightarrow> Inl Parse_error))"
  by pat_completeness auto
termination
  by (relation "measure (\<lambda>(stack, acc, ts). length ts)")
     (auto dest!: parse_assign_shorter parse_condition_shorter)

declare parse_loop.simps [simp del]

definition parse :: "token list \<Rightarrow> failure + stmt list" where
  "parse ts = parse_loop [] [] ts"

subsection \<open>Evaluator\<close>

text \<open>
  Modelled from the spec: section 4.3. An assignment resolves its right-hand side first,
  fails with a const violation when the target exists and is const, and otherwise inserts
  or overwrites, the const flag taken from the statement. A conditional compares two
  values of one kind (integers as signed numbers, strings for equality only) and runs
  its body in the same environment. A failing statement ends the run; what was changed
  before it stays.
\<close>

fun resolve :: "environment \<Rightarrow> expr \<Rightarrow> failure + val" where
  "resolve env (Lit_int i) = Inr (Int_val i)"
| "resolve env (Lit_str s) = Inr (Str_val s)"
| "resolve env (Var n) =
     (case lookup env n of None \<Rightarrow> Inl Variable_not_found | Some x \<Rightarrow> Inr (var_val x))"

fun compare_ints :: "compare_op \<Rightarrow> int \<Rightarrow> int \<Rightarrow> bool" where
  "compare_ints Lt a b = (a < b)"
| "compare_ints Gt a b = (a > b)"
| "compare_ints Le a b = (a \<le> b)"
| "compare_ints Ge a b = (a \<ge> b)"
| "compare_ints Eq a b = (a = b)"
| "compare_ints Ne a b = (a \<noteq> b)"

fun compare_vals :: "compare_op \<Rightarrow> val \<Rightarrow> val \<Rightarrow> failure + bool" where
  "compare_vals c (Int_val a) (Int_val b) = Inr (compare_ints c (sint a) (sint b))"
| "compare_vals c (Str_val a) (Str_val b) =
     (if c = Eq then Inr (a = b) else if c = Ne then Inr (a \<noteq> b) else Inl Type_mismatch)"
| "compare_vals c _ _ = Inl Type_mismatch"

fun exec :: "stmt \<Rightarrow> environment \<Rightarrow> failure option \<times> environment"
  and exec_all :: "stmt list \<Rightarrow> environment \<Rightarrow> failure option \<times> environment" where
  "exec (Assign n mutable e) env =
     (case resolve env e of
        Inl f \<Rightarrow> (Some f, env)
      | Inr v \<Rightarrow>
          (case lookup env n of
             None \<Rightarrow> (None, store env \<lparr>var_name = n, var_val = v, is_const = \<not> mutable\<rparr>)
           | Some x \<Rightarrow>
               if is_const x then (Some Const_violation, env)
               else (None, store env \<lparr>var_name = n, var_val = v, is_const = \<not> mutable\<rparr>)))"
| "exec (Conditional (Comparison a c b) body) env =
     (case resolve env a of
        Inl f \<Rightarrow> (Some f, env)
      | Inr va \<Rightarrow>
          (case resolve env b of
             Inl f \<Rightarrow> (Some f, env)
           | Inr vb \<Rightarrow>
               (case compare_vals c va vb of
                  Inl f \<Rightarrow> (Some f, env)
                | Inr holds \<Rightarrow> if holds then exec_all body env else (None, env))))"
| "exec_all [] env = (None, env)"
| "exec_all (s # ss) env =
     (case exec s env of
        (Some f, env') \<Rightarrow> (Some f, env')
      | (None, env') \<Rightarrow> exec_all ss env')"

subsection \<open>Serializer\<close>

text \<open>
  Modelled from the spec: section 4.5. One line per variable in insertion order; an
  integer in decimal, a string in double quotes with quote and backslash escaped by a
  backslash.
\<close>

fun escape :: "string \<Rightarrow> string" where
  "escape [] = []"
| "escape (c # cs) =
     (if c = quote \<or> c = backslash then backslash # c # escape cs else c # escape cs)"

fun literal :: "val \<Rightarrow> string" where
  "literal (Int_val i) = str_int (sint i)"
| "literal (Str_val s) = quote # escape s @ [quote]"

definition render_line :: "variable \<Rightarrow> string" where
  "render_line x =
     (if is_const x then ''const '' else []) @ ''set '' @ var_name x @ '' = ''
       @ literal (var_val x) @ [CHR 0x0A]"

definition render :: "environment \<Rightarrow> string" where
  "render env = concat (map render_line env)"

subsection \<open>The instance and its interface\<close>

text \<open>
  Modelled from the spec: the engine-facing operations of sections 4.4 and 6 over one
  instance: its environment, its last diagnostic message, and the files it can read and
  write. The text of the diagnostics is not specified: \<open>diag\<close> gives the message recorded
  for each status, and every property below holds for every \<open>diag\<close>. A file is written
  without failure. A getter that fails leaves its out-parameter as the wrapper
  initialised it (0, or no string).
\<close>

record world =
  vars :: environment
  last_error :: string
  files :: "string \<Rightarrow> string option"

definition create :: "(string \<Rightarrow> string option) \<Rightarrow> world" where
  "create fs = \<lparr>vars = [], last_error = [], files = fs\<rparr>"

definition report :: "(status \<Rightarrow> string) \<Rightarrow> status \<Rightarrow> world \<Rightarrow> int \<times> world" where
  "report diag st w = (status_code st, w\<lparr>last_error := diag st\<rparr>)"

definition load :: "string \<Rightarrow> environment \<Rightarrow> failure option \<times> environment" where
  "load source env =
     (case tokenize source of
        Inl f \<Rightarrow> (Some f, env)
      | Inr ts \<Rightarrow>
          (case parse ts of
             Inl f \<Rightarrow> (Some f, env)
           | Inr program \<Rightarrow> exec_all program env))"

definition engine_load_string :: "(status \<Rightarrow> string) \<Rightarrow> world \<Rightarrow> string \<Rightarrow> int \<times> world" where
  "engine_load_string diag w source =
     (case load source (vars w) of
        (None, env') \<Rightarrow> report diag OK (w\<lparr>vars := env'\<rparr>)
      | (Some f, env') \<Rightarrow> report diag (failure_status f) (w\<lparr>vars := env'\<rparr>))"

definition engine_load_file :: "(status \<Rightarrow> string) \<Rightarrow> world \<Rightarrow> string \<Rightarrow> int \<times> world" where
  "engine_load_file diag w path =
     (case files w path of
        None \<Rightarrow> report diag FILE_ERROR w
      | Some source \<Rightarrow> engine_load_string diag w source)"

definition engine_get_int ::
  "(status \<Rightarrow> string) \<Rightarrow> world \<Rightarrow> string \<Rightarrow> int \<times> c_int \<times> world" where
  "engine_get_int diag w name =
     (case lookup (vars w) name of
        None \<Rightarrow> (let (st, w') = report diag VARIABLE_NOT_FOUND w in (st, 0, w'))
      | Some x \<Rightarrow>
          (case var_val x of
             Int_val i \<Rightarrow> (let (st, w') = report diag OK w in (st, i, w'))
           | Str_val s \<Rightarrow> (let (st, w') = report diag TYPE_MISMATCH w in (st, 0, w'))))"

definition engine_get_string ::
  "(status \<Rightarrow> string) \<Rightarrow> world \<Rightarrow> string \<Rightarrow> int \<times> string \<times> world" where
  "engine_get_string diag w name =
     (case lookup (vars w) name of
        None \<Rightarrow> (let (st, w') = report diag VARIABLE_NOT_FOUND w in (st, [], w'))
      | Some x \<Rightarrow>
          (case var_val x of
             Str_val s \<Rightarrow> (let (st, w') = report diag OK w in (st, s, w'))
           | Int_val i \<Rightarrow> (let (st, w') = report diag TYPE_MISMATCH w in (st, [], w'))))"

definition engine_set_int ::
  "(status \<Rightarrow> string) \<Rightarrow> world \<Rightarrow> string \<Rightarrow> c_int \<Rightarrow> int \<times> world" where
  "engine_set_int diag w name v =
     (case lookup (vars w) name of
        None \<Rightarrow> report diag VARIABLE_NOT_FOUND w
      | Some x \<Rightarrow>
          if is_const x then report diag CONST_VIOLATION w
          else
            (case var_val x of
               Str_val s \<Rightarrow> report diag TYPE_MISMATCH w
             | Int_val i \<Rightarrow>
                 report diag OK (w\<lparr>vars := store (vars w) (x\<lparr>var_val := Int_val v\<rparr>)\<rparr>)))"

definition engine_save_file :: "(status \<Rightarrow> string) \<Rightarrow> world \<Rightarrow> string \<Rightarrow> int \<times> world" where
  "engine_save_file diag w path =
     report diag OK (w\<lparr>files := (files w)(path \<mapsto> render (vars w))\<rparr>)"

definition engine :: "(status \<Rightarrow> string) \<Rightarrow> world clib" where
  "engine diag =
     \<lparr>cfg_load_file = engine_load_file diag,
      cfg_load_string = engine_load_string diag,
      cfg_get_int = engine_get_int diag,
      cfg_get_string = engine_get_string diag,
      cfg_set_int = engine_set_int diag,
      cfg_save_file = engine_save_file diag,
      cfg_get_error = last_error\<rparr>"

subsection \<open>Example programs\<close>

text \<open>The program of the module docstring, and one with a const variable.\<close>

definition example_source :: string where
  "example_source =
     ''set x = 10'' @ [CHR 0x0A] @ ''set name = '' @ [CHR 0x22] @ ''Hello'' @ [CHR 0x22]"

definition const_source :: string where
  "const_source = ''set x = 10'' @ [CHR 0x0A] @ ''const set max = 100''"



subsection \<open>Sequences of loads\<close>

text \<open>
  Modelled from the spec: the environment after a sequence of \<open>load\<close> calls on one
  instance, each starting from what the one before left, whether it succeeded or not
  (a failed load keeps what it changed, section 4.3).
\<close>

fun loads :: "string list \<Rightarrow> environment \<Rightarrow> environment" where
  "loads [] env = env"
| "loads (source # sources) env = loads sources (snd (load source env))"

section \<open>Notions for the round trip\<close>

text \<open>
  The tokens and the statement that one rendered line stands for, the shape of the names
  the lexer reads as identifiers, and the assignment targets of a program. An environment
  is well formed when its names are distinct identifiers.
\<close>

fun literal_token :: "val \<Rightarrow> token" where
  "literal_token (Int_val i) = INT_LITERAL i"
| "literal_token (Str_val s) = STRING_LITERAL s"

fun literal_expr :: "val \<Rightarrow> expr" where
  "literal_expr (Int_val i) = Lit_int i"
| "literal_expr (Str_val s) = Lit_str s"

definition line_tokens :: "variable \<Rightarrow> token list" where
  "line_tokens x =
     (if is_const x then [KEYWORD Kw_const] else [])
       @ [KEYWORD Kw_set, IDENT (var_name x), OPERATOR Op_assign, literal_token (var_val x)]"

definition statement_of :: "variable \<Rightarrow> stmt" where
  "statement_of x = Assign (var_name x) (\<not> is_const x) (literal_expr (var_val x))"

definition ident :: "string \<Rightarrow> bool" where
  "ident n = (case n of [] \<Rightarrow> False
     | c # w \<Rightarrow> is_alpha c \<and> list_all is_alnum w \<and> word_token n = IDENT n)"

definition well_formed :: "environment \<Rightarrow> bool" where
  "well_formed env = (distinct (map var_name env) \<and> list_all (\<lambda>x. ident (var_name x)) env)"

fun targets :: "stmt \<Rightarrow> string list"
  and targets_all :: "stmt list \<Rightarrow> string list" where
  "targets (Assign n mutable e) = [n]"
| "targets (Conditional c body) = targets_all body"
| "targets_all [] = []"
| "targets_all (s # ss) = targets s @ targets_all ss"

section \<open>Properties of the wrapper\<close>

subsection \<open>Status translation\<close>













subsection \<open>Status constants\<close>

text \<open>
  C6. The wrapper's nine constants are the integers the specification fixes for the
  engine's statuses, name by name; so are their bit patterns as C ints, and reading the
  C int of a status back gives the wrapper's constant.
\<close>

theorem status_constants:
  "ERR_CFG_OK = 0 \<and> ERR_CFG_NULL_POINTER = - 1 \<and> ERR_CFG_FILE_ERROR = - 2
   \<and> ERR_CFG_PARSE_ERROR = - 3 \<and> ERR_CFG_VARIABLE_NOT_FOUND = - 4
   \<and> ERR_CFG_CONST_VIOLATION = - 5 \<and> ERR_CFG_OUT_OF_MEMORY = - 6
   \<and> ERR_CFG_TYPE_MISMATCH = - 7 \<and> ERR_CFG_UNKNOWN_ERROR = - 8
   \<and> wrapper_constant s = status_code s
   \<and> c_int_of (wrapper_constant s) = c_int_of (status_code s)
   \<and> sint (c_int_of (status_code s)) = wrapper_constant s"
  by (cases s) (simp_all add: ERR_CFG_defs c_int_of_def)

subsection \<open>Release of the engine instance\<close>

lemma step_cleared: "cfg self = Present None \<Longrightarrow> step c self = self"
  by (cases c) (simp_all add: py_exit_def py_del_def)

lemma run_cleared: "cfg self = Present None \<Longrightarrow> run cs self = self"
  by (induction cs) (simp_all add: step_cleared)

lemma py_init_ok:
  "py_init lib_path path_exists created = (Inr (), self) \<Longrightarrow>
     \<exists>h. created = Some h \<and> h \<noteq> 0 \<and> self = \<lparr>cfg = Present (Some h), destroyed = []\<rparr>"
  by (auto simp: py_init_def Let_def split: if_splits option.splits)

text \<open>
  C7, as amended. When construction succeeded, every non-empty sequence of calls of
  \<^verbatim>\<open>__exit__\<close> and \<^verbatim>\<open>__del__\<close> in which \<^verbatim>\<open>__del__\<close> runs only as the last call passes the
  handle to \<^verbatim>\<open>cfg_destroy\<close> exactly once.
\<close>

theorem released_once:
  assumes "py_init lib_path path_exists created = (Inr (), self)"
    and "calls \<noteq> []" and "Del \<notin> set (butlast calls)"
  shows "\<exists>h. created = Some h \<and> destroyed (run calls self) = [h]"
proof -
  from assms(1) obtain h where h: "created = Some h" "h \<noteq> 0"
    and self: "self = \<lparr>cfg = Present (Some h), destroyed = []\<rparr>"
    using py_init_ok by blast
  from assms(2) obtain c cs where calls: "calls = c # cs" by (cases calls) auto
  show ?thesis
  proof (cases c)
    case Exit
    have "step Exit self = \<lparr>cfg = Present None, destroyed = [h]\<rparr>"
      using h self by (simp add: py_exit_def)
    then have "run calls self = \<lparr>cfg = Present None, destroyed = [h]\<rparr>"
      using calls Exit by (simp add: run_cleared)
    with h show ?thesis by simp
  next
    case Del
    with assms(3) calls have "cs = []" by (cases cs) auto
    with calls Del h self show ?thesis by (simp add: py_del_def)
  qed
qed

theorem released_once_witness:
  "py_init ''libconfiglang.so'' True (Some 7) = (Inr (), \<lparr>cfg = Present (Some 7), destroyed = []\<rparr>)
   \<and> [Exit, Exit, Del] \<noteq> [] \<and> Del \<notin> set (butlast [Exit, Exit, Del])
   \<and> destroyed (run [Exit, Exit, Del] \<lparr>cfg = Present (Some 7), destroyed = []\<rparr>) = [7]"
proof -
  have a: "py_init ''libconfiglang.so'' True (Some 7) = (Inr (), \<lparr>cfg = Present (Some 7), destroyed = []\<rparr>)"
    by (simp add: py_init_def)
  have b: "[Exit, Exit, Del] \<noteq> []" by simp
  have c: "Del \<notin> set (butlast [Exit, Exit, Del])" by simp
  from released_once [OF a b c] a b c show ?thesis by simp
qed

text \<open>
  C7 as stated fails: \<^verbatim>\<open>__del__\<close> does not clear the handle, so \<^verbatim>\<open>__del__\<close> followed by
  \<^verbatim>\<open>__exit__\<close> calls \<^verbatim>\<open>cfg_destroy\<close> twice with the same handle.
\<close>

theorem del_then_exit_destroys_twice:
  "destroyed (run [Del, Exit] (snd (py_init ''libconfiglang.so'' True (Some 7)))) = [7, 7]"
  by (simp add: py_init_def py_del_def py_exit_def)

subsection \<open>Dictionary-style assignment\<close>

text \<open>
  C9. \<^verbatim>\<open>__setitem__\<close> with a value that is not an int raises TypeError and returns the
  state it was given, whatever the library, so no engine call was made; with an int (a
  bool is one) it is \<^verbatim>\<open>set_int\<close> with that value.
\<close>

theorem setitem_type_check:
  "setitem L w name v =
     (if isinstance_int v then set_int L w name (int_of_obj v)
      else (Inl (PyExc TypeError ''Only integer values are supported via setitem''), w))
   \<and> setitem L w name (Int_obj i) = set_int L w name i
   \<and> isinstance_int (Int_obj i) \<and> isinstance_int (Bool_obj b)
   \<and> \<not> isinstance_int (Str_obj s) \<and> \<not> isinstance_int None_obj \<and> \<not> isinstance_int (Other_obj k)"
  by (simp add: setitem_def)

subsection \<open>The exception hierarchy\<close>


section \<open>Properties of the wrapper over the modelled engine\<close>

lemmas engine_simps =
  engine_def report_def check_error_def get_error_def ERR_CFG_defs
  engine_get_int_def engine_get_string_def engine_set_int_def







lemma load_example:
  "load example_source [] =
     (None, [\<lparr>var_name = ''x'', var_val = Int_val 10, is_const = False\<rparr>,
             \<lparr>var_name = ''name'', var_val = Str_val ''Hello'', is_const = False\<rparr>])"
  by code_simp

lemma load_const_source:
  "load const_source [] =
     (None, [\<lparr>var_name = ''x'', var_val = Int_val 10, is_const = False\<rparr>,
             \<lparr>var_name = ''max'', var_val = Int_val 100, is_const = True\<rparr>])"
  by code_simp


subsection \<open>Setting an integer\<close>



subsection \<open>Reading a variable\<close>


subsection \<open>The example of the module docstring\<close>

text \<open>
  C5. On a fresh instance, \<^verbatim>\<open>load_string\<close> of the two lines \<^verbatim>\<open>set x = 10\<close> and
  \<^verbatim>\<open>set name = "Hello"\<close> returns without an exception; then \<^verbatim>\<open>get_int("x")\<close> returns 10 and
  \<^verbatim>\<open>get_string("name")\<close> returns \<^verbatim>\<open>Hello\<close>.
\<close>

theorem end_to_end_example:
  "fst (load_string (engine diag) (create fs) example_source) = Inr ()
   \<and> fst (get_int (engine diag) (snd (load_string (engine diag) (create fs) example_source)) ''x'')
     = Inr 10
   \<and> fst (get_string (engine diag)
        (snd (get_int (engine diag)
           (snd (load_string (engine diag) (create fs) example_source)) ''x'')) ''name'')
     = Inr ''Hello''"
  by (simp add: load_string_def get_int_def get_string_def engine_simps engine_load_string_def
      create_def load_example)

subsection \<open>Reading a variable of either kind\<close>


section \<open>Save and load\<close>

subsection \<open>The lexer reads what the serializer writes\<close>

lemma char_classes:
  "is_alpha c \<Longrightarrow> \<not> is_space c" "is_digit c \<Longrightarrow> \<not> is_space c"
  "is_digit c \<Longrightarrow> \<not> is_alpha c" "is_alpha c \<Longrightarrow> is_alnum c" "is_digit c \<Longrightarrow> is_alnum c"
  "is_alnum c \<Longrightarrow> \<not> is_space c"
  by (auto simp: is_alpha_def is_digit_def is_space_def is_alnum_def)

lemma fixed_chars:
  "is_space (CHR '' '')" "is_space (CHR 0x0A)" "\<not> is_alnum (CHR '' '')" "\<not> is_alnum (CHR 0x0A)"
  "\<not> is_digit (CHR '' '')" "\<not> is_digit (CHR 0x0A)"
  "\<not> is_space (CHR ''='')" "\<not> is_alpha (CHR ''='')" "\<not> is_digit (CHR ''='')"
  "\<not> is_space (CHR ''-'')" "\<not> is_alpha (CHR ''-'')" "\<not> is_digit (CHR ''-'')"
  "\<not> is_space quote" "\<not> is_alpha quote" "\<not> is_digit quote" "quote \<noteq> CHR ''-''"
  "quote \<noteq> backslash"
  by (simp_all add: is_alpha_def is_digit_def is_space_def is_alnum_def quote_def backslash_def)

lemma tokenize_space: "is_space c \<Longrightarrow> tokenize (c # cs) = tokenize cs"
  by (subst tokenize.simps, subst (2) tokenize.simps) simp

lemma tokenize_token:
  "\<not> is_space c \<Longrightarrow> next_token (c # cs) = Inr (t, rest) \<Longrightarrow> tokenize rest = Inr ts \<Longrightarrow>
     tokenize (c # cs) = Inr (t # ts)"
  by (subst tokenize.simps) simp

lemma next_token_word:
  "is_alpha c \<Longrightarrow> list_all is_alnum w \<Longrightarrow> \<not> is_alnum d \<Longrightarrow>
     next_token (c # w @ d # s) = Inr (word_token (c # w), d # s)"
  by (simp add: next_token.simps list_all_iff takeWhile_append2 dropWhile_append2)

lemma next_token_assign:
  "next_token (CHR ''='' # CHR '' '' # s) = Inr (OPERATOR Op_assign, CHR '' '' # s)"
  by (simp add: next_token.simps is_alpha_def is_digit_def quote_def backslash_def)

lemma tokenize_set:
  "tokenize s = Inr ts \<Longrightarrow> tokenize (''set '' @ s) = Inr (KEYWORD Kw_set # ts)"
proof -
  assume a: "tokenize s = Inr ts"
  have "next_token (CHR ''s'' # ''et'' @ CHR '' '' # s) = Inr (word_token ''set'', CHR '' '' # s)"
    by (rule next_token_word) (simp_all add: is_alpha_def is_alnum_def is_digit_def)
  moreover have "tokenize (CHR '' '' # s) = Inr ts"
    using a by (simp add: tokenize_space fixed_chars)
  moreover have "\<not> is_space (CHR ''s'')" by (simp add: is_space_def)
  ultimately have "tokenize (CHR ''s'' # ''et'' @ CHR '' '' # s) = Inr (word_token ''set'' # ts)"
    by (rule tokenize_token [rotated])
  then show ?thesis by (simp add: word_token_def)
qed

lemma tokenize_const:
  "tokenize s = Inr ts \<Longrightarrow> tokenize (''const '' @ s) = Inr (KEYWORD Kw_const # ts)"
proof -
  assume a: "tokenize s = Inr ts"
  have "next_token (CHR ''c'' # ''onst'' @ CHR '' '' # s) = Inr (word_token ''const'', CHR '' '' # s)"
    by (rule next_token_word) (simp_all add: is_alpha_def is_alnum_def is_digit_def)
  moreover have "tokenize (CHR '' '' # s) = Inr ts"
    using a by (simp add: tokenize_space fixed_chars)
  moreover have "\<not> is_space (CHR ''c'')" by (simp add: is_space_def)
  ultimately have "tokenize (CHR ''c'' # ''onst'' @ CHR '' '' # s) = Inr (word_token ''const'' # ts)"
    by (rule tokenize_token [rotated])
  then show ?thesis by (simp add: word_token_def)
qed

lemma tokenize_ident:
  assumes "ident n" "tokenize s = Inr ts"
  shows "tokenize (n @ '' = '' @ s) = Inr (IDENT n # OPERATOR Op_assign # ts)"
proof -
  from assms(1) obtain c w where n: "n = c # w" and c: "is_alpha c" and w: "list_all is_alnum w"
    and t: "word_token n = IDENT n"
    by (auto simp: ident_def split: list.splits)
  have 1: "tokenize (CHR '' '' # s) = Inr ts"
    using assms(2) by (simp add: tokenize_space fixed_chars)
  have 2: "tokenize (CHR ''='' # CHR '' '' # s) = Inr (OPERATOR Op_assign # ts)"
    by (rule tokenize_token [OF _ next_token_assign 1]) (simp add: fixed_chars)
  have 3: "tokenize (CHR '' '' # CHR ''='' # CHR '' '' # s) = Inr (OPERATOR Op_assign # ts)"
    using 2 by (simp add: tokenize_space fixed_chars)
  have "next_token (c # w @ CHR '' '' # CHR ''='' # CHR '' '' # s)
          = Inr (word_token (c # w), CHR '' '' # CHR ''='' # CHR '' '' # s)"
    using c w by (rule next_token_word) (simp add: fixed_chars)
  from tokenize_token [OF _ this 3] c t n show ?thesis
    by (simp add: char_classes)
qed

lemma digit_cases: "d < 10 \<Longrightarrow> d \<in> {0, 1, 2, 3, 4, 5, 6, 7, 8, 9 :: nat}"
  by auto

lemma digit_char_digit: "d < 10 \<Longrightarrow> is_digit (digit_char d)"
  by (drule digit_cases) (auto simp: digit_char_def is_digit_def)

lemma digit_val_digit_char: "d < 10 \<Longrightarrow> digit_val (digit_char d) = int d"
  by (drule digit_cases) (auto simp: digit_char_def digit_val_def)

lemma str_nat_digits: "list_all is_digit (str_nat n) \<and> str_nat n \<noteq> []"
proof (induction n rule: str_nat.induct)
  case (1 n)
  show ?case
  proof (cases "n < 10")
    case True
    then show ?thesis by (subst (1 2) str_nat.simps) (simp add: digit_char_digit)
  next
    case False
    with 1 have "list_all is_digit (str_nat (n div 10))" by simp
    with False show ?thesis by (subst (1 2) str_nat.simps) (simp add: digit_char_digit)
  qed
qed

lemma read_digits_snoc: "read_digits (ds @ [c]) = 10 * read_digits ds + digit_val c"
  by (simp add: read_digits_def)

lemma read_digits_str_nat: "read_digits (str_nat n) = int n"
proof (induction n rule: str_nat.induct)
  case (1 n)
  show ?case
  proof (cases "n < 10")
    case True
    then show ?thesis
      by (subst str_nat.simps) (simp add: read_digits_def digit_val_digit_char)
  next
    case False
    with 1 have "read_digits (str_nat (n div 10)) = int (n div 10)" by simp
    with False show ?thesis
      by (subst str_nat.simps) (simp add: read_digits_snoc digit_val_digit_char zdiv_int zmod_int)
  qed
qed

lemma read_int_str_nat:
  assumes "\<not> is_digit d"
  shows "read_int negative (str_nat n @ d # s) =
           (if negative then
              (if int n \<le> 2147483648 then Inr (INT_LITERAL (word_of_int (- int n)), d # s)
               else Inl Lex_error)
            else
              (if int n \<le> 2147483647 then Inr (INT_LITERAL (word_of_int (int n)), d # s)
               else Inl Lex_error))"
proof -
  have a: "\<forall>x\<in>set (str_nat n). is_digit x"
    using str_nat_digits [of n] by (simp add: list_all_iff)
  have "takeWhile is_digit (str_nat n @ d # s) = str_nat n"
    using a assms by (simp add: takeWhile_append2)
  moreover have "dropWhile is_digit (str_nat n @ d # s) = d # s"
    using a assms by (simp add: dropWhile_append2)
  ultimately show ?thesis
    by (simp add: read_int_def read_digits_str_nat)
qed

lemma next_token_int:
  assumes "\<not> is_digit d"
  shows "next_token (str_int (sint (i :: c_int)) @ d # s) = Inr (INT_LITERAL i, d # s)"
proof -
  have lo: "- 2147483648 \<le> sint i" using sint_ge [of i] by simp
  have hi: "sint i < 2147483648" using sint_lt [of i] by simp
  show ?thesis
  proof (cases "sint i < 0")
    case False
    obtain c w where cw: "str_nat (nat (sint i)) = c # w"
      using str_nat_digits [of "nat (sint i)"] by (cases "str_nat (nat (sint i))") auto
    then have c: "is_digit c"
      using str_nat_digits [of "nat (sint i)"] by simp
    have "next_token (c # w @ d # s) = read_int False (c # w @ d # s)"
      using c by (simp add: next_token.simps char_classes)
    also have "\<dots> = read_int False (str_nat (nat (sint i)) @ d # s)"
      by (simp add: cw)
    also have "\<dots> = Inr (INT_LITERAL (word_of_int (sint i)), d # s)"
      using False hi by (simp add: read_int_str_nat [OF assms])
    finally show ?thesis
      using False by (simp add: str_int_def cw)
  next
    case True
    obtain c w where cw: "str_nat (nat (- sint i)) = c # w"
      using str_nat_digits [of "nat (- sint i)"] by (cases "str_nat (nat (- sint i))") auto
    then have c: "is_digit c"
      using str_nat_digits [of "nat (- sint i)"] by simp
    have "next_token (CHR ''-'' # c # w @ d # s) = read_int True (c # w @ d # s)"
      using c by (simp add: next_token.simps fixed_chars)
    also have "\<dots> = read_int True (str_nat (nat (- sint i)) @ d # s)"
      by (simp add: cw)
    also have "\<dots> = Inr (INT_LITERAL (word_of_int (sint i)), d # s)"
      using True lo by (simp add: read_int_str_nat [OF assms])
    finally show ?thesis
      using True by (simp add: str_int_def cw)
  qed
qed

lemma read_string_escape: "read_string (escape s @ quote # rest) = Some (s, rest)"
  using fixed_chars(17) by (induction s) auto

lemma next_token_string:
  "next_token (quote # escape s @ quote # rest) = Inr (STRING_LITERAL s, rest)"
  by (simp add: next_token.simps fixed_chars read_string_escape)

lemma str_int_head: "\<exists>c w. str_int k = c # w \<and> \<not> is_space c"
proof -
  obtain c w where cw: "str_nat (nat k) = c # w"
    using str_nat_digits [of "nat k"] by (cases "str_nat (nat k)") auto
  then have "is_digit c" using str_nat_digits [of "nat k"] by simp
  then show ?thesis using cw by (auto simp: str_int_def fixed_chars char_classes)
qed

lemma tokenize_literal:
  assumes "tokenize s = Inr ts"
  shows "tokenize (literal v @ CHR 0x0A # s) = Inr (literal_token v # ts)"
proof -
  have r: "tokenize (CHR 0x0A # s) = Inr ts"
    using assms by (simp add: tokenize_space fixed_chars)
  show ?thesis
  proof (cases v)
    case (Int_val i)
    obtain c w where cw: "str_int (sint i) = c # w" and c: "\<not> is_space c"
      using str_int_head by blast
    have "next_token (c # w @ CHR 0x0A # s) = Inr (INT_LITERAL i, CHR 0x0A # s)"
      using next_token_int [of "CHR 0x0A" i s] by (simp add: cw fixed_chars)
    from tokenize_token [OF c this r] show ?thesis
      by (simp add: Int_val cw)
  next
    case (Str_val t)
    have "next_token (quote # escape t @ quote # CHR 0x0A # s) = Inr (STRING_LITERAL t, CHR 0x0A # s)"
      by (rule next_token_string)
    from tokenize_token [OF _ this r] show ?thesis
      by (simp add: Str_val fixed_chars)
  qed
qed

lemma tokenize_render_line:
  assumes "ident (var_name x)" "tokenize s = Inr ts"
  shows "tokenize (render_line x @ s) = Inr (line_tokens x @ ts)"
proof -
  have 1: "tokenize (literal (var_val x) @ CHR 0x0A # s) = Inr (literal_token (var_val x) # ts)"
    using assms(2) by (rule tokenize_literal)
  have 2: "tokenize (var_name x @ '' = '' @ literal (var_val x) @ CHR 0x0A # s)
             = Inr (IDENT (var_name x) # OPERATOR Op_assign # literal_token (var_val x) # ts)"
    using assms(1) 1 by (rule tokenize_ident)
  have 3: "tokenize (''set '' @ var_name x @ '' = '' @ literal (var_val x) @ CHR 0x0A # s)
             = Inr (KEYWORD Kw_set # IDENT (var_name x) # OPERATOR Op_assign
                     # literal_token (var_val x) # ts)"
    using 2 by (rule tokenize_set)
  show ?thesis
  proof (cases "is_const x")
    case False
    with 3 show ?thesis by (simp add: render_line_def line_tokens_def)
  next
    case True
    from tokenize_const [OF 3] True show ?thesis
      by (simp add: render_line_def line_tokens_def)
  qed
qed

lemma tokenize_empty: "tokenize [] = Inr [EOF]"
  by (subst tokenize.simps) simp

lemma tokenize_render:
  "list_all (\<lambda>x. ident (var_name x)) env \<Longrightarrow>
     tokenize (render env) = Inr (concat (map line_tokens env) @ [EOF])"
proof (induction env)
  case Nil
  show ?case by (simp add: render_def tokenize_empty)
next
  case (Cons x env)
  then have "tokenize (render env) = Inr (concat (map line_tokens env) @ [EOF])" by simp
  with Cons.prems have "tokenize (render_line x @ render env)
      = Inr (line_tokens x @ concat (map line_tokens env) @ [EOF])"
    by (simp add: tokenize_render_line)
  then show ?case by (simp add: render_def)
qed

lemma expr_of_literal_token: "expr_of_token (literal_token v) = Some (literal_expr v)"
  by (cases v) simp_all

lemma parse_loop_line:
  "parse_loop [] acc (line_tokens x @ ts) = parse_loop [] (acc @ [statement_of x]) ts"
  by (subst parse_loop.simps)
     (simp add: line_tokens_def statement_of_def parse_assign_def expr_of_literal_token)

lemma parse_loop_lines:
  "parse_loop [] acc (concat (map line_tokens env) @ [EOF]) = Inr (acc @ map statement_of env)"
proof (induction env arbitrary: acc)
  case Nil
  show ?case by (subst parse_loop.simps) simp
next
  case (Cons x env)
  show ?case by (simp add: parse_loop_line Cons.IH)
qed

lemma lookup_None: "n \<notin> set (map var_name env) \<Longrightarrow> lookup env n = None"
  by (induction env) auto

lemma store_new: "var_name x \<notin> set (map var_name env) \<Longrightarrow> store env x = env @ [x]"
  by (induction env) auto

lemma resolve_literal: "resolve env (literal_expr v) = Inr v"
  by (cases v) simp_all

lemma exec_all_statements:
  "distinct (map var_name (env0 @ env)) \<Longrightarrow>
     exec_all (map statement_of env) env0 = (None, env0 @ env)"
proof (induction env arbitrary: env0)
  case Nil
  show ?case by simp
next
  case (Cons x env)
  then have new: "var_name x \<notin> set (map var_name env0)" by auto
  have "exec (statement_of x) env0 = (None, env0 @ [x])"
    using new by (simp add: statement_of_def resolve_literal lookup_None store_new)
  moreover have "exec_all (map statement_of env) (env0 @ [x]) = (None, (env0 @ [x]) @ env)"
    using Cons.prems by (intro Cons.IH) simp
  ultimately show ?case by simp
qed

lemma round_trip_well_formed:
  assumes "well_formed env"
  shows "load (render env) [] = (None, env)"
proof -
  from assms have "tokenize (render env) = Inr (concat (map line_tokens env) @ [EOF])"
    by (simp add: well_formed_def tokenize_render)
  moreover have "parse (concat (map line_tokens env) @ [EOF]) = Inr (map statement_of env)"
    using parse_loop_lines [of "[]" env] by (simp add: parse_def)
  moreover have "exec_all (map statement_of env) [] = (None, env)"
    using assms exec_all_statements [of "[]" env] by (simp add: well_formed_def)
  ultimately show ?thesis by (simp add: load_def)
qed

lemma targets_all_append: "targets_all (xs @ ys) = targets_all xs @ targets_all ys"
  by (induction xs) simp_all

lemma next_token_ident: "next_token cs = Inr (IDENT n, rest) \<Longrightarrow> ident n"
proof (cases cs)
  case Nil
  assume "next_token cs = Inr (IDENT n, rest)"
  with Nil show ?thesis by (simp add: next_token.simps)
next
  case (Cons c cs')
  assume a: "next_token cs = Inr (IDENT n, rest)"
  show ?thesis
  proof (cases "is_alpha c")
    case True
    with a Cons have w: "word_token (c # takeWhile is_alnum cs') = IDENT n"
      by (simp add: next_token.simps)
    then have n: "n = c # takeWhile is_alnum cs'"
      by (simp add: word_token_def split: if_splits)
    have "list_all is_alnum (takeWhile is_alnum cs')"
      by (auto simp: list_all_iff dest: set_takeWhileD)
    with True w n show ?thesis by (simp add: ident_def)
  next
    case False
    with a Cons show ?thesis
      by (auto simp: next_token.simps read_int_def Let_def split: if_splits list.splits option.splits)
  qed
qed

lemma tokenize_idents: "tokenize cs = Inr ts \<Longrightarrow> IDENT n \<in> set ts \<Longrightarrow> ident n"
proof (induction cs arbitrary: ts rule: tokenize.induct)
  case (1 cs)
  show ?case
  proof (cases "dropWhile is_space cs")
    case Nil
    with "1.prems" show ?thesis by (subst (asm) tokenize.simps) auto
  next
    case (Cons c cs')
    from "1.prems"(1) Cons obtain t rest ts' where
      nt: "next_token (c # cs') = Inr (t, rest)" and tr: "tokenize rest = Inr ts'"
      and ts: "ts = t # ts'"
      by (subst (asm) tokenize.simps) (auto split: sum.splits)
    from "1.prems"(2) ts consider "t = IDENT n" | "IDENT n \<in> set ts'" by auto
    then show ?thesis
    proof cases
      case 1
      with nt show ?thesis using next_token_ident by blast
    next
      case 2
      from "1.IH" [OF Cons nt refl tr 2] show ?thesis .
    qed
  qed
qed

lemma parse_assign_result:
  "parse_assign m ts = Inr (s, rest) \<Longrightarrow>
     \<exists>n t e. ts = IDENT n # OPERATOR Op_assign # t # rest \<and> s = Assign n m e"
  by (auto simp: parse_assign_def split: list.splits token.splits operator.splits option.splits)

lemma parse_condition_result:
  "parse_condition ts = Inr (c, rest) \<Longrightarrow> \<exists>a opr b. ts = a # OPERATOR opr # b # LBRACE # rest"
  by (auto simp: parse_condition_def split: list.splits token.splits option.splits)

lemma parse_loop_targets:
  assumes "parse_loop stack acc ts = Inr prog"
    and "\<And>n. IDENT n \<in> set ts \<Longrightarrow> P n"
    and "list_all P (targets_all acc)"
    and "list_all (\<lambda>fr. list_all P (targets_all (snd fr))) stack"
  shows "list_all P (targets_all prog)"
  using assms
proof (induction stack acc ts rule: parse_loop.induct)
  case (1 stack acc ts)
  note unfolded = "1.prems"(1) [unfolded parse_loop.simps [of stack acc ts]]
  show ?case
  proof (cases ts)
    case Nil
    with unfolded show ?thesis by simp
  next
    case ts: (Cons t ts')
    have sub: "\<And>n. IDENT n \<in> set ts' \<Longrightarrow> P n"
      using "1.prems"(2) ts by simp
    show ?thesis
    proof (cases t)
      case EOF
      with unfolded ts "1.prems"(3) show ?thesis by (auto split: if_splits)
    next
      case RBRACE
      show ?thesis
      proof (cases stack)
        case Nil
        with unfolded ts RBRACE show ?thesis by simp
      next
        case (Cons fr stack')
        obtain c outer where fr: "fr = (c, outer)" by (cases fr)
        from unfolded ts RBRACE Cons fr
        have p: "parse_loop stack' (outer @ [Conditional c acc]) ts' = Inr prog" by simp
        have a: "list_all P (targets_all (outer @ [Conditional c acc]))"
          using "1.prems"(3,4) Cons fr by (simp add: targets_all_append)
        have b: "list_all (\<lambda>fr. list_all P (targets_all (snd fr))) stack'"
          using "1.prems"(4) Cons by simp
        show ?thesis
          by (rule "1.IH"(4) [OF ts RBRACE Cons fr [symmetric] p sub a b])
      qed
    next
      case (KEYWORD k)
      show ?thesis
      proof (cases k)
        case Kw_set
        from unfolded ts KEYWORD Kw_set obtain s rest where
          pa: "parse_assign True ts' = Inr (s, rest)"
          and p: "parse_loop stack (acc @ [s]) rest = Inr prog"
          by (auto split: sum.splits)
        from parse_assign_result [OF pa] obtain n t' e where
          ts': "ts' = IDENT n # OPERATOR Op_assign # t' # rest" and s: "s = Assign n True e"
          by blast
        have a: "list_all P (targets_all (acc @ [s]))"
          using "1.prems"(3) s ts' sub by (simp add: targets_all_append)
        have sub': "\<And>n. IDENT n \<in> set rest \<Longrightarrow> P n"
          using sub ts' by simp
        show ?thesis
          by (rule "1.IH"(1) [OF ts KEYWORD Kw_set pa refl p sub' a "1.prems"(4)])
      next
        case Kw_const
        from unfolded ts KEYWORD Kw_const obtain ts'' s rest where
          ts': "ts' = KEYWORD Kw_set # ts''"
          and pa: "parse_assign False ts'' = Inr (s, rest)"
          and p: "parse_loop stack (acc @ [s]) rest = Inr prog"
          by (auto split: sum.splits list.splits if_splits)
        from parse_assign_result [OF pa] obtain n t' e where
          ts'': "ts'' = IDENT n # OPERATOR Op_assign # t' # rest" and s: "s = Assign n False e"
          by blast
        have a: "list_all P (targets_all (acc @ [s]))"
          using "1.prems"(3) s ts' ts'' sub by (simp add: targets_all_append)
        have sub': "\<And>n. IDENT n \<in> set rest \<Longrightarrow> P n"
          using sub ts' ts'' by simp
        show ?thesis
          by (rule "1.IH"(2) [OF ts KEYWORD Kw_const ts' refl pa refl p sub' a "1.prems"(4)])
      next
        case Kw_if
        from unfolded ts KEYWORD Kw_if obtain c rest where
          pc: "parse_condition ts' = Inr (c, rest)"
          and p: "parse_loop ((c, acc) # stack) [] rest = Inr prog"
          by (auto split: sum.splits)
        from parse_condition_result [OF pc] obtain a opr b where
          ts': "ts' = a # OPERATOR opr # b # LBRACE # rest" by blast
        have sub': "\<And>n. IDENT n \<in> set rest \<Longrightarrow> P n"
          using sub ts' by simp
        have st: "list_all (\<lambda>fr. list_all P (targets_all (snd fr))) ((c, acc) # stack)"
          using "1.prems"(3,4) by simp
        have e: "list_all P (targets_all [])" by simp
        show ?thesis
          by (rule "1.IH"(3) [OF ts KEYWORD Kw_if pc refl p sub' e st])
      qed
    qed (use unfolded ts in simp_all)
  qed
qed

lemma names_store_cases:
  "map var_name (store env x) =
     (if var_name x \<in> set (map var_name env) then map var_name env
      else map var_name env @ [var_name x])"
  by (induction env) auto

lemma set_store: "set (store env x) \<subseteq> insert x (set env)"
  by (induction env) auto

lemma store_well_formed:
  assumes "well_formed env" "ident (var_name x)"
  shows "well_formed (store env x)"
proof -
  have "distinct (map var_name (store env x))"
    using assms(1) by (simp add: names_store_cases well_formed_def)
  moreover have "list_all (\<lambda>y. ident (var_name y)) (store env x)"
    using assms set_store [of env x] by (auto simp: well_formed_def list_all_iff)
  ultimately show ?thesis by (simp add: well_formed_def)
qed

lemma exec_well_formed:
  "well_formed env \<Longrightarrow> list_all ident (targets s) \<Longrightarrow> well_formed (snd (exec s env))"
  "well_formed env \<Longrightarrow> list_all ident (targets_all ss) \<Longrightarrow> well_formed (snd (exec_all ss env))"
proof (induction s env and ss env rule: exec_exec_all.induct)
  case (1 n mutable e env)
  then show ?case
    by (auto simp: store_well_formed split: sum.splits option.splits)
next
  case (2 a c b body env)
  then show ?case
    by (auto split: sum.splits)
next
  case (3 env)
  then show ?case by simp
next
  case (4 s ss env)
  then show ?case
    by (auto split: prod.splits option.splits)
qed

lemma load_well_formed:
  assumes "well_formed env"
  shows "well_formed (snd (load source env))"
proof (cases "tokenize source")
  case (Inl f)
  with assms show ?thesis by (simp add: load_def)
next
  case (Inr ts)
  show ?thesis
  proof (cases "parse ts")
    case (Inl f)
    with Inr assms show ?thesis by (simp add: load_def)
  next
    case program: (Inr program)
    have "list_all ident (targets_all program)"
    proof (rule parse_loop_targets)
      show "parse_loop [] [] ts = Inr program"
        using program by (simp add: parse_def)
      show "\<And>n. IDENT n \<in> set ts \<Longrightarrow> ident n"
        using Inr by (rule tokenize_idents)
    qed simp_all
    with assms have "well_formed (snd (exec_all program env))"
      by (rule exec_well_formed(2))
    with Inr program show ?thesis by (simp add: load_def)
  qed
qed

lemma loads_well_formed: "well_formed env \<Longrightarrow> well_formed (loads sources env)"
  by (induction sources arbitrary: env) (simp_all add: load_well_formed)

lemma well_formed_empty: "well_formed []"
  by (simp add: well_formed_def)

lemma loads_const_source:
  "loads [const_source] [] =
     [\<lparr>var_name = ''x'', var_val = Int_val 10, is_const = False\<rparr>,
      \<lparr>var_name = ''max'', var_val = Int_val 100, is_const = True\<rparr>]"
  by (simp add: load_const_source)

lemma render_const_source:
  "render [\<lparr>var_name = ''x'', var_val = Int_val 10, is_const = False\<rparr>,
           \<lparr>var_name = ''max'', var_val = Int_val 100, is_const = True\<rparr>]
     = ''set x = 10'' @ [CHR 0x0A] @ ''const set max = 100'' @ [CHR 0x0A]"
  by code_simp

subsection \<open>The round trip\<close>

text \<open>
  C3. From the empty environment, after any sequence of \<open>load\<close> calls (in particular
  any sequence of successful ones), rendering the environment and loading the rendered
  text into a fresh empty environment succeeds and gives the same environment: the same
  variables with the same values and const flags, in the same order. Through the
  wrapper: \<^verbatim>\<open>save_file\<close> returns, and \<^verbatim>\<open>load_file\<close> of the saved file on a fresh instance
  returns and leaves that environment.
\<close>

theorem save_load_round_trip:
  "load (render (loads sources [])) [] = (None, loads sources [])
   \<and> fst (save_file (engine diag) \<lparr>vars = loads sources [], last_error = msg, files = fs\<rparr> path)
       = Inr ()
   \<and> fst (load_file (engine diag)
        (create (files (snd (save_file (engine diag)
           \<lparr>vars = loads sources [], last_error = msg, files = fs\<rparr> path)))) path) = Inr ()
   \<and> vars (snd (load_file (engine diag)
        (create (files (snd (save_file (engine diag)
           \<lparr>vars = loads sources [], last_error = msg, files = fs\<rparr> path)))) path))
       = loads sources []"
proof -
  have "well_formed (loads sources [])"
    using well_formed_empty by (rule loads_well_formed)
  then have "load (render (loads sources [])) [] = (None, loads sources [])"
    by (rule round_trip_well_formed)
  then show ?thesis
    by (simp add: save_file_def load_file_def engine_def engine_save_file_def
        engine_load_file_def engine_load_string_def report_def check_error_def ERR_CFG_defs
        create_def)
qed

theorem save_load_round_trip_witness:
  "render (loads [const_source] [])
     = ''set x = 10'' @ [CHR 0x0A] @ ''const set max = 100'' @ [CHR 0x0A]
   \<and> load (''set x = 10'' @ [CHR 0x0A] @ ''const set max = 100'' @ [CHR 0x0A]) []
     = (None, [\<lparr>var_name = ''x'', var_val = Int_val 10, is_const = False\<rparr>,
               \<lparr>var_name = ''max'', var_val = Int_val 100, is_const = True\<rparr>])"
  using save_load_round_trip [where sources = "[const_source]"]
  by (simp only: loads_const_source render_const_source)

end
